theory Spec2Isabelle
  imports Main "HOL-Library.Word"
begin

section \<open>The task primitives of common/Task.hpp\<close>

text \<open>
  The header defines a small class hierarchy: the interface \<open>ITask\<close> with
  \<open>Run\<close> and \<open>GetName\<close>, the class template \<open>NamedBasicTask<T, PromiseType>\<close>
  that holds a callable, a name and an optional promise, its two front ends
  \<open>Task<T>\<close> and \<open>Task<void>\<close>, the bounded-retry \<open>TaskWithAttempts<T>\<close>, and the
  factory functions \<open>make_task\<close> and \<open>make_task_with_attempts\<close>.

  The embedding keeps one definition per member function. What the C++ does beyond
  returning a value is explicit:
  \<^item> an exception is the \<open>Inl\<close> side of a sum, so every \<open>throw\<close> and every
    \<open>catch\<close> is a branch;
  \<^item> the shared states of promises live in a store, because a promise that the
    task gives up is still observed by the future that waits on it;
  \<^item> the callable carries its captured state, and each invocation returns the
    state the next invocation starts from;
  \<^item> \<open>int\<close> is a 32-bit signed word, and the one signed overflow of the header
    is undefined behaviour, kept as a value of its own.
\<close>

subsection \<open>Result-type inference (\<open>OptionalNestedType\<close>)\<close>

text \<open>
  The C++ types the factory functions compute with. \<open>T_named\<close> stands for a
  class type other than an instance of \<open>std::optional\<close>, with no converting
  constructor and no conversion function: it converts from and to itself only.
\<close>

datatype cpp_type = T_void | T_int | T_named string | T_optional cpp_type

text \<open>
  The primary template has \<open>type = T\<close>; the partial specialisation for
  \<open>std::optional<T>\<close> recurses into \<open>T\<close>. The specialisation is the more
  specialised match, so it comes first.
\<close>

fun OptionalNestedType :: "cpp_type \<Rightarrow> cpp_type" where
  "OptionalNestedType (T_optional T) = OptionalNestedType T"
| "OptionalNestedType T = T"

text \<open>The class templates a factory can instantiate, with their template arguments.\<close>

datatype task_class =
    C_NamedBasicTask cpp_type cpp_type
  | C_Task cpp_type
  | C_TaskWithAttempts cpp_type

text \<open>
  \<open>BaseType\<close>: \<open>Task<void>\<close> derives from \<open>NamedBasicTask<int, void>\<close>, every other
  \<open>Task<T>\<close> and every \<open>TaskWithAttempts<T>\<close> from \<open>NamedBasicTask<T>\<close>, whose
  second argument defaults to the first.
\<close>

fun BaseType :: "task_class \<Rightarrow> task_class" where
  "BaseType (C_Task T_void) = C_NamedBasicTask T_int T_void"
| "BaseType (C_Task T) = C_NamedBasicTask T T"
| "BaseType (C_TaskWithAttempts T) = C_NamedBasicTask T T"
| "BaseType (C_NamedBasicTask T P) = C_NamedBasicTask T P"

text \<open>
  The class \<open>make_task\<close> passes to \<open>std::make_unique\<close> for a callable whose
  \<open>std::invoke_result_t\<close> is \<open>R\<close>, and the class its returned pointer points to.
\<close>

definition make_task_class :: "cpp_type \<Rightarrow> task_class" where
  "make_task_class R = C_Task (OptionalNestedType R)"

definition make_task_return :: "cpp_type \<Rightarrow> task_class" where
  "make_task_return R = BaseType (C_Task (OptionalNestedType R))"

text \<open>
  \<open>make_task_with_attempts\<close> has the same inference behind a \<open>requires\<close> clause:
  the overload does not exist (\<open>None\<close>) when the inferred type is \<open>void\<close>.
\<close>

definition make_task_with_attempts_class :: "cpp_type \<Rightarrow> task_class option" where
  "make_task_with_attempts_class R =
     (if OptionalNestedType R = T_void then None
      else Some (C_TaskWithAttempts (OptionalNestedType R)))"

text \<open>The type of the value a future of the task delivers: the \<open>PromiseType\<close>.\<close>

definition promise_type :: "task_class \<Rightarrow> cpp_type" where
  "promise_type c =
     (case BaseType c of
        C_NamedBasicTask T P \<Rightarrow> P
      | C_Task T \<Rightarrow> T
      | C_TaskWithAttempts T \<Rightarrow> T)"

fun is_optional :: "cpp_type \<Rightarrow> bool" where
  "is_optional (T_optional T) = True"
| "is_optional T = False"

text \<open>
  \<open>std::optional<T>\<close> can be instantiated for an object type only, so no type
  holds \<open>std::optional<void>\<close>.
\<close>

fun valid_type :: "cpp_type \<Rightarrow> bool" where
  "valid_type (T_optional T) = (T \<noteq> T_void \<and> valid_type T)"
| "valid_type T = True"

text \<open>
  \<open>std::is_convertible_v<From, To>\<close> on these types. A type converts to itself.
  Into \<open>std::optional<T>\<close> there are two more ways, the converting constructors
  of \<open>std::optional\<close>: from a value that converts to \<open>T\<close>, and from a
  \<open>std::optional<U>\<close> whose \<open>U\<close> converts to \<open>T\<close>. Nothing else converts:
  \<open>int\<close> and the classes of \<open>T_named\<close> are not constructible from an optional.
\<close>

fun is_convertible :: "cpp_type \<Rightarrow> cpp_type \<Rightarrow> bool" where
  "is_convertible From (T_optional T) =
     (From = T_optional T \<or> (From \<noteq> T_void \<and> is_convertible From T) \<or>
      (case From of T_optional U \<Rightarrow> is_convertible U T | _ \<Rightarrow> False))"
| "is_convertible From To = (From = To)"

text \<open>
  Whether the constructors of \<open>Task<T>\<close> accept a callable whose result type is
  \<open>R\<close>. \<open>Task<void>\<close> takes a \<open>std::function<void()>\<close>, which wraps any
  callable. Every other \<open>Task<T>\<close>, and \<open>TaskWithAttempts<T>\<close>, takes a
  \<open>std::function<std::optional<T>()>\<close>, which wraps a callable only if its result
  converts to \<open>std::optional<T>\<close>.
\<close>

definition Task_constructible :: "cpp_type \<Rightarrow> cpp_type \<Rightarrow> bool" where
  "Task_constructible T R =
     (case T of
        T_void \<Rightarrow> True
      | _ \<Rightarrow> is_convertible R (T_optional T))"

definition TaskWithAttempts_constructible :: "cpp_type \<Rightarrow> cpp_type \<Rightarrow> bool" where
  "TaskWithAttempts_constructible T R = is_convertible R (T_optional T)"

text \<open>
  What a call of \<open>make_task\<close> and of \<open>make_task_with_attempts\<close> produces for a
  callable whose result type is \<open>R\<close>: an object of the class the return type names,
  when the \<open>std::make_unique\<close> in the body can call the constructor, and no program
  (\<open>None\<close>) otherwise.
\<close>

definition make_task_produces :: "cpp_type \<Rightarrow> task_class option" where
  "make_task_produces R =
     (if valid_type R \<and> Task_constructible (OptionalNestedType R) R
      then Some (make_task_class R) else None)"

definition make_task_with_attempts_produces :: "cpp_type \<Rightarrow> task_class option" where
  "make_task_with_attempts_produces R =
     (if valid_type R \<and> TaskWithAttempts_constructible (OptionalNestedType R) R
      then make_task_with_attempts_class R else None)"

subsection \<open>Exceptions, promises and their shared states\<close>

text \<open>
  \<open>std::future_errc\<close>, and the exceptions that can be in flight inside \<open>Run\<close>:
  whatever the callable threw (\<open>'e\<close>), or the \<open>std::future_error\<close> a promise
  throws.
\<close>

datatype future_errc =
  broken_promise | future_already_retrieved | promise_already_satisfied | no_state

datatype 'e exception = thrown 'e | future_error future_errc

text \<open>
  The shared state behind a promise and its future: not ready, or ready with a value
  or with an exception. A store maps the address of a shared state to its content.
  A \<open>std::promise\<close> object refers to one shared state, or to none once it has been
  moved from.
\<close>

datatype ('p, 'e) shared_state =
  not_ready | has_value 'p | has_exception "'e exception"

type_synonym addr = nat

type_synonym ('p, 'e) store = "addr \<Rightarrow> ('p, 'e) shared_state"

type_synonym promise = "addr option"

text \<open>
  \<open>std::promise::set_value\<close> and \<open>set_exception\<close>: both throw
  \<open>future_error\<close> when the promise has no shared state or the shared state already
  holds a result, and store the result otherwise.
\<close>

definition set_value ::
  "('p, 'e) store \<Rightarrow> promise \<Rightarrow> 'p \<Rightarrow> 'e exception + ('p, 'e) store" where
  "set_value h p v =
     (case p of
        None \<Rightarrow> Inl (future_error no_state)
      | Some a \<Rightarrow>
          (case h a of
             not_ready \<Rightarrow> Inr (h(a := has_value v))
           | has_value w \<Rightarrow> Inl (future_error promise_already_satisfied)
           | has_exception y \<Rightarrow> Inl (future_error promise_already_satisfied)))"

definition set_exception ::
  "('p, 'e) store \<Rightarrow> promise \<Rightarrow> 'e exception \<Rightarrow> 'e exception + ('p, 'e) store" where
  "set_exception h p x =
     (case p of
        None \<Rightarrow> Inl (future_error no_state)
      | Some a \<Rightarrow>
          (case h a of
             not_ready \<Rightarrow> Inr (h(a := has_exception x))
           | has_value w \<Rightarrow> Inl (future_error promise_already_satisfied)
           | has_exception y \<Rightarrow> Inl (future_error promise_already_satisfied)))"

text \<open>
  The destructor of a promise abandons its shared state: a state that is not ready
  becomes ready with \<open>future_error(broken_promise)\<close>, a ready one is left as it is.
\<close>

definition promise_destroy :: "('p, 'e) store \<Rightarrow> promise \<Rightarrow> ('p, 'e) store" where
  "promise_destroy h p =
     (case p of
        None \<Rightarrow> h
      | Some a \<Rightarrow>
          (case h a of
             not_ready \<Rightarrow> h(a := has_exception (future_error broken_promise))
           | has_value w \<Rightarrow> h
           | has_exception y \<Rightarrow> h))"

text \<open>
  \<open>std::unique_ptr<std::promise<P>>\<close>: \<open>None\<close> is the null pointer. Resetting or
  overwriting the pointer deletes the promise it owned.
\<close>

definition unique_ptr_reset :: "('p, 'e) store \<Rightarrow> promise option \<Rightarrow> ('p, 'e) store" where
  "unique_ptr_reset h u = (case u of None \<Rightarrow> h | Some p \<Rightarrow> promise_destroy h p)"

subsection \<open>Machine integers\<close>

text \<open>
  \<open>int\<close> has 32 bits and is read as two's complement (\<open>sint\<close>). The header
  decrements one, with \<open>--m_attempts\<close>; at \<open>INT_MIN\<close> the decrement is a signed
  overflow, which C++ leaves undefined.
\<close>

type_synonym cpp_int = "32 word"

definition INT_MIN :: cpp_int where
  "INT_MIN = - 2147483648"

datatype 'a behaviour = Undefined | Defined 'a

definition pre_decrement :: "cpp_int \<Rightarrow> cpp_int behaviour" where
  "pre_decrement n = (if n = INT_MIN then Undefined else Defined (n - 1))"

subsection \<open>Callables\<close>

text \<open>
  A \<open>std::function<R()>\<close>: the code of the callable and the state it has captured.
  An invocation returns a value or throws, and leaves the captured state for the
  next invocation. An empty \<open>std::function\<close> is the callable that always throws
  \<open>std::bad_function_call\<close>. A callable has no access to the store: a shared state
  is written only through its promise, and the task owns the promise it was given.
\<close>

type_synonym ('s, 'r, 'e) callable = "('s \<Rightarrow> ('e + 'r) \<times> 's) \<times> 's"

definition invoke :: "('s, 'r, 'e) callable \<Rightarrow> ('e + 'r) \<times> ('s, 'r, 'e) callable" where
  "invoke f = (case fst f (snd f) of (r, s') \<Rightarrow> (r, (fst f, s')))"

subsection \<open>\<open>ITask\<close> and \<open>NamedBasicTask\<close>\<close>

datatype RunResult = Ok | Deferred

text \<open>
  The members of \<open>NamedBasicTask\<close>. \<open>m_promise\<close> is a \<open>std::unique_ptr\<close> to a
  promise: null (\<open>None\<close>) until \<open>SetPromise\<close> is called.
\<close>

record ('s, 't, 'e) NamedBasicTask =
  m_promise :: "promise option"
  m_func :: "('s, 't option, 'e) callable"
  m_taskName :: string

text \<open>The constructor that takes a name: no promise is attached yet.\<close>

definition NamedBasicTask_ctor ::
  "string \<Rightarrow> ('s, 't option, 'e) callable \<Rightarrow> ('s, 't, 'e) NamedBasicTask" where
  "NamedBasicTask_ctor taskName func =
     \<lparr>m_promise = None, m_func = func, m_taskName = taskName\<rparr>"

text \<open>
  \<open>fmt::format("{:#x}", n)\<close>: the digits of \<open>n\<close> in base 16, lower case, after
  \<open>0x\<close>.
\<close>

definition hex_digit :: "nat \<Rightarrow> char" where
  "hex_digit d = ''0123456789abcdef'' ! (d mod 16)"

function hex_digits :: "nat \<Rightarrow> string" where
  "hex_digits n = (if n < 16 then [hex_digit n] else hex_digits (n div 16) @ [hex_digit n])"
  by pat_completeness auto
termination
  by (relation "measure (\<lambda>n. n)") auto

definition format_hex :: "nat \<Rightarrow> string" where
  "format_hex n = ''0x'' @ hex_digits n"

text \<open>
  The constructor without a name formats the address of the object under
  construction, a \<open>std::size_t\<close>, into the name.
\<close>

definition NamedBasicTask_ctor_unnamed ::
  "64 word \<Rightarrow> ('s, 't option, 'e) callable \<Rightarrow> ('s, 't, 'e) NamedBasicTask" where
  "NamedBasicTask_ctor_unnamed this func =
     NamedBasicTask_ctor (''Unknown at '' @ format_hex (unat this)) func"

text \<open>
  \<open>SetPromise\<close> assigns a fresh \<open>unique_ptr\<close> to \<open>m_promise\<close>; the assignment
  deletes the promise the task owned before.
\<close>

definition SetPromise ::
  "('p, 'e) store \<Rightarrow> ('s, 't, 'e, 'z) NamedBasicTask_scheme \<Rightarrow> promise \<Rightarrow>
     ('p, 'e) store \<times> ('s, 't, 'e, 'z) NamedBasicTask_scheme" where
  "SetPromise h t p = (unique_ptr_reset h (m_promise t), t\<lparr>m_promise := Some p\<rparr>)"

text \<open>
  The \<open>catch (...)\<close> block of \<open>Run\<close>, entered with the exception \<open>x\<close> in flight:
  with a promise, \<open>set_exception\<close>, whose own \<open>future_error\<close> leaves \<open>Run\<close>; then
  \<open>return RunResult::Ok\<close>.
\<close>

definition Run_catch ::
  "('p, 'e) store \<Rightarrow> ('s, 't, 'e, 'z) NamedBasicTask_scheme \<Rightarrow> 'e exception \<Rightarrow>
     ('e exception + RunResult) \<times> ('p, 'e) store \<times> ('s, 't, 'e, 'z) NamedBasicTask_scheme" where
  "Run_catch h t x =
     (case m_promise t of
        None \<Rightarrow> (Inr Ok, h, t)
      | Some p \<Rightarrow>
          (case set_exception h p x of
             Inl y \<Rightarrow> (Inl y, h, t)
           | Inr h' \<Rightarrow> (Inr Ok, h', t)))"

text \<open>
  \<open>NamedBasicTask<T, PromiseType>::Run\<close>. The argument \<open>conv\<close> is the
  \<open>if constexpr\<close> on \<open>PromiseType\<close>: the identity when the promise takes the value
  of the callable, the constant \<open>()\<close> when \<open>PromiseType\<close> is \<open>void\<close>. The result is
  what \<open>Run\<close> returns (\<open>Inr\<close>) or the exception that leaves it (\<open>Inl\<close>), the store
  and the task afterwards.
\<close>

definition NamedBasicTask_Run ::
  "('t \<Rightarrow> 'p) \<Rightarrow> ('p, 'e) store \<Rightarrow> ('s, 't, 'e, 'z) NamedBasicTask_scheme \<Rightarrow>
     ('e exception + RunResult) \<times> ('p, 'e) store \<times> ('s, 't, 'e, 'z) NamedBasicTask_scheme" where
  "NamedBasicTask_Run conv h t =
     (case invoke (m_func t) of
        (result, f') \<Rightarrow>
          (case result of
             Inl e \<Rightarrow> Run_catch h (t\<lparr>m_func := f'\<rparr>) (thrown e)
           | Inr None \<Rightarrow> (Inr Deferred, h, t\<lparr>m_func := f'\<rparr>)
           | Inr (Some v) \<Rightarrow>
               (case m_promise t of
                  None \<Rightarrow> (Inr Ok, h, t\<lparr>m_func := f'\<rparr>)
                | Some p \<Rightarrow>
                    (case set_value h p (conv v) of
                       Inl x \<Rightarrow> Run_catch h (t\<lparr>m_func := f'\<rparr>) x
                     | Inr h' \<Rightarrow> (Inr Ok, h', t\<lparr>m_func := f'\<rparr>)))))"

text \<open>The two instances the header uses: \<open>PromiseType = T\<close> and \<open>PromiseType = void\<close>.\<close>

definition Run ::
  "('t, 'e) store \<Rightarrow> ('s, 't, 'e, 'z) NamedBasicTask_scheme \<Rightarrow>
     ('e exception + RunResult) \<times> ('t, 'e) store \<times> ('s, 't, 'e, 'z) NamedBasicTask_scheme" where
  "Run = NamedBasicTask_Run (\<lambda>v. v)"

definition Run_void ::
  "(unit, 'e) store \<Rightarrow> ('s, cpp_int, 'e, 'z) NamedBasicTask_scheme \<Rightarrow>
     ('e exception + RunResult) \<times> (unit, 'e) store \<times> ('s, cpp_int, 'e, 'z) NamedBasicTask_scheme" where
  "Run_void = NamedBasicTask_Run (\<lambda>v. ())"

text \<open>
  \<open>GetName\<close> returns \<open>m_taskName.c_str()\<close> as a \<open>char const *\<close>: the characters of
  the name up to its first NUL.
\<close>

definition c_str :: "string \<Rightarrow> string" where
  "c_str s = takeWhile (\<lambda>c. c \<noteq> CHR 0x00) s"

definition GetName :: "('s, 't, 'e, 'z) NamedBasicTask_scheme \<Rightarrow> string" where
  "GetName t = c_str (m_taskName t)"

subsection \<open>\<open>Task<T>\<close> and \<open>Task<void>\<close>\<close>

definition Task_ctor ::
  "string \<Rightarrow> ('s, 't option, 'e) callable \<Rightarrow> ('s, 't, 'e) NamedBasicTask" where
  "Task_ctor taskName func = NamedBasicTask_ctor taskName func"

definition Task_ctor_unnamed ::
  "64 word \<Rightarrow> ('s, 't option, 'e) callable \<Rightarrow> ('s, 't, 'e) NamedBasicTask" where
  "Task_ctor_unnamed this func = NamedBasicTask_ctor_unnamed this func"

text \<open>
  The lambda \<open>Task<void>\<close> wraps around a \<open>std::function<void()>\<close>: invoke it, then
  \<open>return 0\<close>, which the \<open>std::function<std::optional<int>()>\<close> of the base class
  turns into an engaged optional. An exception of the inner callable leaves the
  lambda.
\<close>

definition void_lambda :: "('s, unit, 'e) callable \<Rightarrow> ('s, cpp_int option, 'e) callable" where
  "void_lambda func =
     (\<lambda>s. case fst func s of
             (Inl e, s') \<Rightarrow> (Inl e, s')
           | (Inr u, s') \<Rightarrow> (Inr (Some 0), s'),
      snd func)"

definition Task_void_ctor ::
  "string \<Rightarrow> ('s, unit, 'e) callable \<Rightarrow> ('s, cpp_int, 'e) NamedBasicTask" where
  "Task_void_ctor taskName func = NamedBasicTask_ctor taskName (void_lambda func)"

definition Task_void_ctor_unnamed ::
  "64 word \<Rightarrow> ('s, unit, 'e) callable \<Rightarrow> ('s, cpp_int, 'e) NamedBasicTask" where
  "Task_void_ctor_unnamed this func = NamedBasicTask_ctor_unnamed this (void_lambda func)"

text \<open>
  \<open>make_task\<close>, for a callable that returns \<open>std::optional<T>\<close> and for one that
  returns \<open>void\<close>; \<open>this\<close> is the address \<open>std::make_unique\<close> allocates the task
  at.
\<close>

definition make_task_named ::
  "string \<Rightarrow> ('s, 't option, 'e) callable \<Rightarrow> ('s, 't, 'e) NamedBasicTask" where
  "make_task_named taskName func = Task_ctor taskName func"

definition make_task ::
  "64 word \<Rightarrow> ('s, 't option, 'e) callable \<Rightarrow> ('s, 't, 'e) NamedBasicTask" where
  "make_task this func = Task_ctor_unnamed this func"

definition make_task_void_named ::
  "string \<Rightarrow> ('s, unit, 'e) callable \<Rightarrow> ('s, cpp_int, 'e) NamedBasicTask" where
  "make_task_void_named taskName func = Task_void_ctor taskName func"

definition make_task_void ::
  "64 word \<Rightarrow> ('s, unit, 'e) callable \<Rightarrow> ('s, cpp_int, 'e) NamedBasicTask" where
  "make_task_void this func = Task_void_ctor_unnamed this func"

subsection \<open>\<open>TaskWithAttempts<T>\<close>\<close>

record ('s, 't, 'e) TaskWithAttempts = "('s, 't, 'e) NamedBasicTask" +
  m_attempts :: cpp_int

text \<open>
  The constructors run the constructor of the base class and initialise the counter
  with the argument as it is; no value of \<open>attempts\<close> is refused.
\<close>

definition TaskWithAttempts_ctor ::
  "string \<Rightarrow> cpp_int \<Rightarrow> ('s, 't option, 'e) callable \<Rightarrow> ('s, 't, 'e) TaskWithAttempts" where
  "TaskWithAttempts_ctor taskName attempts func =
     NamedBasicTask.extend (NamedBasicTask_ctor taskName func)
       (TaskWithAttempts.fields attempts)"

definition TaskWithAttempts_ctor_unnamed ::
  "64 word \<Rightarrow> cpp_int \<Rightarrow> ('s, 't option, 'e) callable \<Rightarrow> ('s, 't, 'e) TaskWithAttempts" where
  "TaskWithAttempts_ctor_unnamed this attempts func =
     NamedBasicTask.extend (NamedBasicTask_ctor_unnamed this func)
       (TaskWithAttempts.fields attempts)"

text \<open>
  \<open>TaskWithAttempts<T>::Run\<close>: the base class's \<open>Run\<close> first, whose exception,
  if any, passes through. On \<open>Deferred\<close> the counter is decremented and compared
  with zero; at zero the promise is reset and the result is \<open>Ok\<close>. In every other
  case the result of the base class is returned.
\<close>

definition TaskWithAttempts_Run ::
  "('t, 'e) store \<Rightarrow> ('s, 't, 'e) TaskWithAttempts \<Rightarrow>
     (('e exception + RunResult) \<times> ('t, 'e) store \<times> ('s, 't, 'e) TaskWithAttempts) behaviour" where
  "TaskWithAttempts_Run h t =
     (case Run h t of
        (Inl x, h', t') \<Rightarrow> Defined (Inl x, h', t')
      | (Inr Ok, h', t') \<Rightarrow> Defined (Inr Ok, h', t')
      | (Inr Deferred, h', t') \<Rightarrow>
          (case pre_decrement (m_attempts t') of
             Undefined \<Rightarrow> Undefined
           | Defined n \<Rightarrow>
               if n = 0
               then Defined (Inr Ok, unique_ptr_reset h' (m_promise t'),
                             t'\<lparr>m_promise := None, m_attempts := n\<rparr>)
               else Defined (Inr Deferred, h', t'\<lparr>m_attempts := n\<rparr>)))"

definition make_task_with_attempts ::
  "64 word \<Rightarrow> cpp_int \<Rightarrow> ('s, 't option, 'e) callable \<Rightarrow> ('s, 't, 'e) TaskWithAttempts" where
  "make_task_with_attempts this attempts func = TaskWithAttempts_ctor_unnamed this attempts func"

definition make_task_with_attempts_named ::
  "string \<Rightarrow> cpp_int \<Rightarrow> ('s, 't option, 'e) callable \<Rightarrow> ('s, 't, 'e) TaskWithAttempts" where
  "make_task_with_attempts_named taskName attempts func =
     TaskWithAttempts_ctor taskName attempts func"

subsection \<open>Callers\<close>

text \<open>
  What a caller can rely on before it calls \<open>Run\<close>: no promise is attached, or the
  attached promise has a shared state that holds no result yet.
\<close>

definition promise_settable :: "('p, 'e) store \<Rightarrow> promise option \<Rightarrow> bool" where
  "promise_settable h u =
     (case u of
        None \<Rightarrow> True
      | Some None \<Rightarrow> False
      | Some (Some a) \<Rightarrow> h a = not_ready)"

text \<open>
  A caller that calls \<open>Run\<close> up to \<open>k\<close> times in a row, as the queue that owns a
  task does turn after turn, and records what each call returned. An exception that
  leaves \<open>Run\<close> reaches the caller and ends the sequence.
\<close>

fun Run_calls ::
  "('h \<Rightarrow> 'k \<Rightarrow> ('x + RunResult) \<times> 'h \<times> 'k) \<Rightarrow> nat \<Rightarrow> 'h \<Rightarrow> 'k \<Rightarrow>
     ('x + RunResult) list \<times> 'h \<times> 'k" where
  "Run_calls run 0 h t = ([], h, t)"
| "Run_calls run (Suc k) h t =
     (case run h t of
        (Inl x, h', t') \<Rightarrow> ([Inl x], h', t')
      | (Inr r, h', t') \<Rightarrow>
          (case Run_calls run k h' t' of
             (rs, h'', t'') \<Rightarrow> (Inr r # rs, h'', t'')))"

text \<open>The same caller for a \<open>TaskWithAttempts\<close>, whose \<open>Run\<close> can be undefined.\<close>

fun TaskWithAttempts_calls ::
  "nat \<Rightarrow> ('t, 'e) store \<Rightarrow> ('s, 't, 'e) TaskWithAttempts \<Rightarrow>
     (('e exception + RunResult) list \<times> ('t, 'e) store \<times> ('s, 't, 'e) TaskWithAttempts) behaviour" where
  "TaskWithAttempts_calls 0 h t = Defined ([], h, t)"
| "TaskWithAttempts_calls (Suc k) h t =
     (case TaskWithAttempts_Run h t of
        Undefined \<Rightarrow> Undefined
      | Defined (Inl x, h', t') \<Rightarrow> Defined ([Inl x], h', t')
      | Defined (Inr r, h', t') \<Rightarrow>
          (case TaskWithAttempts_calls k h' t' of
             Undefined \<Rightarrow> Undefined
           | Defined (rs, h'', t'') \<Rightarrow> Defined (Inr r # rs, h'', t'')))"

text \<open>A callable that returns the empty optional in every state it can be in.\<close>

definition never_yields :: "('s, 't option, 'e) callable \<Rightarrow> bool" where
  "never_yields f = (\<forall>s. fst (fst f s) = Inr None)"

subsection \<open>Example inputs\<close>

text \<open>
  A store in which no promise has a result yet, and a few callables: one that is
  never ready, one that is ready with the same value each time, one that throws each
  time, one that yields the number of its earlier invocations, and two that return
  \<open>void\<close>.
\<close>

definition fresh_store :: "('p, 'e) store" where
  "fresh_store = (\<lambda>a. not_ready)"

definition never_ready :: "(unit, nat option, string) callable" where
  "never_ready = (\<lambda>s. (Inr None, s), ())"

definition always_ready :: "nat \<Rightarrow> (unit, nat option, string) callable" where
  "always_ready v = (\<lambda>s. (Inr (Some v), s), ())"

definition always_throws :: "string \<Rightarrow> (unit, nat option, string) callable" where
  "always_throws e = (\<lambda>s. (Inl e, s), ())"

definition counting :: "(nat, nat option, string) callable" where
  "counting = (\<lambda>n. (Inr (Some n), Suc n), 0)"

definition void_returns :: "(unit, unit, string) callable" where
  "void_returns = (\<lambda>s. (Inr (), s), ())"

definition void_throws :: "string \<Rightarrow> (unit, unit, string) callable" where
  "void_throws e = (\<lambda>s. (Inl e, s), ())"

section \<open>Properties\<close>

subsection \<open>Result-type inference\<close>

lemma OptionalNestedType_nested:
  "\<not> is_optional T \<Longrightarrow> OptionalNestedType ((T_optional ^^ k) T) = T"
  by (induction k) (cases T; simp)+

lemma nested_eq_plain: "\<not> is_optional T \<Longrightarrow> (T_optional ^^ k) T = T \<longleftrightarrow> k = 0"
  by (cases k; cases T) auto

lemma size_nested: "size ((T_optional ^^ k) T) = k + size T"
  by (induction k) simp_all

lemma nested_eq_optional: "(T_optional ^^ k) T = T_optional T \<longleftrightarrow> k = 1"
proof
  assume "(T_optional ^^ k) T = T_optional T"
  then have "size ((T_optional ^^ k) T) = size (T_optional T)" by simp
  then show "k = 1" by (simp add: size_nested)
qed simp

lemma is_convertible_plain: "\<not> is_optional T \<Longrightarrow> is_convertible From T \<longleftrightarrow> From = T"
  by (cases T) simp_all

lemma is_convertible_nested:
  assumes "\<not> is_optional T"
  shows "is_convertible ((T_optional ^^ k) T) (T_optional T) \<longleftrightarrow> (k = 0 \<and> T \<noteq> T_void) \<or> k = 1"
proof (cases k)
  case 0
  then show ?thesis using assms by (auto simp: is_convertible_plain)
next
  case (Suc j)
  have "is_convertible ((T_optional ^^ k) T) (T_optional T) \<longleftrightarrow>
      (T_optional ^^ k) T = T_optional T \<or> (T_optional ^^ k) T = T \<or> (T_optional ^^ j) T = T"
    using assms Suc by (auto simp: is_convertible_plain)
  then show ?thesis
    using assms Suc nested_eq_optional [of k T] nested_eq_plain [of T k] nested_eq_plain [of T j]
    by auto
qed

lemma valid_type_nested:
  "\<not> is_optional T \<Longrightarrow> valid_type ((T_optional ^^ k) T) \<longleftrightarrow> k = 0 \<or> T \<noteq> T_void"
proof (induction k)
  case 0
  then show ?case by (cases T) simp_all
next
  case (Suc k)
  have "(T_optional ^^ k) T = T_void \<longleftrightarrow> k = 0 \<and> T = T_void"
    using Suc.prems nested_eq_plain [of T k] by (cases k) auto
  then show ?case using Suc by auto
qed

text \<open>
  C8, as the code has it. For every type \<open>T\<close> that is not an instance of
  \<open>std::optional\<close> and every depth \<open>k\<close>, \<open>OptionalNestedType\<close> takes \<open>T\<close>
  wrapped in \<open>k\<close> optionals to \<open>T\<close>. For a callable with that return type the
  return type of \<open>make_task\<close> names \<open>Task<T>\<close>, with the base class
  \<open>NamedBasicTask<T>\<close> (\<open>NamedBasicTask<int, void>\<close> for \<open>void\<close>) and a promise that
  delivers a \<open>T\<close>, and \<open>make_task_with_attempts\<close> names \<open>TaskWithAttempts<T>\<close>
  unless \<open>T\<close> is \<open>void\<close>, for which it has no overload. The call produces that
  task at depth 0 and, for a \<open>T\<close> other than \<open>void\<close>, at depth 1. At depth 2 and
  beyond it produces none: the result of the callable does not convert to
  \<open>std::optional<T>\<close>, so the constructor cannot be called.
\<close>

theorem OptionalNestedType_flattens:
  "\<not> is_optional T \<Longrightarrow>
     OptionalNestedType ((T_optional ^^ k) T) = T \<and>
     make_task_class ((T_optional ^^ k) T) = C_Task T \<and>
     make_task_return ((T_optional ^^ k) T)
       = (if T = T_void then C_NamedBasicTask T_int T_void else C_NamedBasicTask T T) \<and>
     promise_type (make_task_return ((T_optional ^^ k) T)) = T \<and>
     make_task_with_attempts_class ((T_optional ^^ k) T)
       = (if T = T_void then None else Some (C_TaskWithAttempts T)) \<and>
     make_task_produces ((T_optional ^^ k) T)
       = (if k = 0 \<or> (k = 1 \<and> T \<noteq> T_void) then Some (C_Task T) else None) \<and>
     make_task_with_attempts_produces ((T_optional ^^ k) T)
       = (if k \<le> 1 \<and> T \<noteq> T_void then Some (C_TaskWithAttempts T) else None)"
proof -
  assume plain: "\<not> is_optional T"
  have inner: "OptionalNestedType ((T_optional ^^ k) T) = T"
    using plain by (rule OptionalNestedType_nested)
  have base: "BaseType (C_Task T)
      = (if T = T_void then C_NamedBasicTask T_int T_void else C_NamedBasicTask T T)"
    by (cases T) simp_all
  have delivered: "promise_type (BaseType (C_Task T)) = T"
    by (cases T) (simp_all add: promise_type_def)
  have accepted: "Task_constructible T ((T_optional ^^ k) T) \<longleftrightarrow> T = T_void \<or> k \<le> 1"
    using plain is_convertible_nested [OF plain, of k]
    by (cases T) (auto simp: Task_constructible_def)
  have produced: "make_task_produces ((T_optional ^^ k) T)
       = (if k = 0 \<or> (k = 1 \<and> T \<noteq> T_void) then Some (C_Task T) else None)"
    using inner accepted valid_type_nested [OF plain, of k]
    by (auto simp: make_task_produces_def make_task_class_def)
  have bounded: "make_task_with_attempts_produces ((T_optional ^^ k) T)
       = (if k \<le> 1 \<and> T \<noteq> T_void then Some (C_TaskWithAttempts T) else None)"
    using inner is_convertible_nested [OF plain, of k] valid_type_nested [OF plain, of k]
    by (auto simp: make_task_with_attempts_produces_def make_task_with_attempts_class_def
        TaskWithAttempts_constructible_def)
  show ?thesis
    using inner base delivered produced bounded
    by (simp add: make_task_class_def make_task_return_def make_task_with_attempts_class_def)
qed

text \<open>
  An instance of C8: the inference at depth 3 over \<open>int\<close>, the tasks produced at
  depths 1 and 0, and the \<open>void\<close> callable.
\<close>

theorem OptionalNestedType_flattens_witness:
  "OptionalNestedType (T_optional (T_optional (T_optional T_int))) = T_int \<and>
   make_task_class (T_optional (T_optional (T_optional T_int))) = C_Task T_int \<and>
   make_task_produces (T_optional T_int) = Some (C_Task T_int) \<and>
   make_task_return (T_optional T_int) = C_NamedBasicTask T_int T_int \<and>
   make_task_produces T_int = Some (C_Task T_int) \<and>
   make_task_with_attempts_produces (T_optional T_int) = Some (C_TaskWithAttempts T_int) \<and>
   make_task_produces T_void = Some (C_Task T_void) \<and>
   make_task_return T_void = C_NamedBasicTask T_int T_void \<and>
   promise_type (make_task_return T_void) = T_void \<and>
   make_task_with_attempts_produces T_void = None"
proof -
  have int_plain: "\<not> is_optional T_int" by simp
  have void_plain: "\<not> is_optional T_void" by simp
  show ?thesis
    using OptionalNestedType_flattens [OF int_plain, of 3] OptionalNestedType_flattens [OF int_plain, of 1] OptionalNestedType_flattens [OF int_plain, of 0]
      OptionalNestedType_flattens [OF void_plain, of 0]
    by (simp add: numeral_3_eq_3 promise_type_def)
qed

text \<open>
  C8 as stated, for every depth, fails at depth 2 over \<open>int\<close>: the inferred type is
  \<open>int\<close>, but a callable that returns \<open>std::optional<std::optional<int>>\<close> is not
  accepted by the constructors of \<open>Task<int>\<close> and \<open>TaskWithAttempts<int>\<close>, so
  neither factory produces a task.
\<close>

theorem make_task_rejects_doubly_nested_optional:
  "make_task_produces (T_optional (T_optional T_int)) = None \<and>
   make_task_with_attempts_produces (T_optional (T_optional T_int)) = None \<and>
   OptionalNestedType (T_optional (T_optional T_int)) = T_int \<and>
   is_convertible (T_optional (T_optional T_int)) (T_optional T_int) = False"
  by (simp add: make_task_produces_def make_task_with_attempts_produces_def
      Task_constructible_def TaskWithAttempts_constructible_def)

subsection \<open>\<open>NamedBasicTask::Run\<close>\<close>

text \<open>
  C1, as the code has it. Every call of \<open>Run\<close> invokes the callable exactly once:
  the callable the task holds afterwards is the one a single invocation leaves. If
  the invocation yields no value, \<open>Run\<close> returns \<open>Deferred\<close> and neither the store
  nor the task's promise changes. If it yields a value and no promise is attached,
  \<open>Run\<close> returns \<open>Ok\<close> and the store is unchanged. If it yields a value and the
  attached promise holds no result yet, \<open>Run\<close> returns \<open>Ok\<close> and that promise holds
  exactly that value (the unit value when \<open>PromiseType\<close> is \<open>void\<close>).
\<close>

theorem Run_invokes_once_and_settles:
  "invoke (m_func t) = (result, f') \<Longrightarrow>
     m_func (snd (snd (NamedBasicTask_Run conv h t))) = f' \<and>
     (result = Inr None \<longrightarrow>
        NamedBasicTask_Run conv h t = (Inr Deferred, h, t\<lparr>m_func := f'\<rparr>)) \<and>
     (result = Inr (Some v) \<and> m_promise t = None \<longrightarrow>
        NamedBasicTask_Run conv h t = (Inr Ok, h, t\<lparr>m_func := f'\<rparr>)) \<and>
     (result = Inr (Some v) \<and> m_promise t = Some (Some a) \<and> h a = not_ready \<longrightarrow>
        NamedBasicTask_Run conv h t
          = (Inr Ok, h(a := has_value (conv v)), t\<lparr>m_func := f'\<rparr>))"
  by (auto simp: NamedBasicTask_Run_def Run_catch_def set_value_def set_exception_def
      split: sum.splits option.splits shared_state.splits)

lemma invoke_counting: "invoke counting = (Inr (Some 0), (fst counting, Suc 0))"
  by (simp add: invoke_def counting_def)

text \<open>
  An instance of C1: with a fresh promise attached, the first call on the counting
  callable returns \<open>Ok\<close>, stores the value 0 and leaves the callable one
  invocation further; a callable that is not ready gives \<open>Deferred\<close> and changes
  nothing.
\<close>

theorem Run_invokes_once_and_settles_witness:
  "case_prod Run (SetPromise fresh_store (make_task_named ''poll'' counting) (Some 0))
     = (Inr Ok, fresh_store(0 := has_value 0),
        \<lparr>m_promise = Some (Some 0), m_func = (fst counting, Suc 0), m_taskName = ''poll''\<rparr>) \<and>
   Run fresh_store (make_task_named ''poll'' never_ready)
     = (Inr Deferred, fresh_store, make_task_named ''poll'' never_ready)"
proof -
  let ?t = "\<lparr>m_promise = Some (Some 0), m_func = counting, m_taskName = ''poll''\<rparr>"
  have ready: "invoke (m_func ?t) = (Inr (Some 0), (fst counting, Suc 0))"
    by (simp add: invoke_counting)
  have waiting: "invoke (m_func (make_task_named ''poll'' never_ready)) = (Inr None, never_ready)"
    by (simp add: make_task_named_def Task_ctor_def NamedBasicTask_ctor_def invoke_def
        never_ready_def)
  show ?thesis
    using Run_invokes_once_and_settles [OF ready, of "\<lambda>v. v" fresh_store 0 0]
      Run_invokes_once_and_settles [OF waiting, of "\<lambda>v. v" fresh_store]
    by (simp add: Run_def SetPromise_def make_task_named_def Task_ctor_def NamedBasicTask_ctor_def
        fresh_store_def unique_ptr_reset_def)
qed

text \<open>
  C1 as stated, for every call, fails at the second call on a task whose first call
  was ready. The counting callable yields 0 and then 1. The first \<open>Run\<close> returns
  \<open>Ok\<close> and stores 0. In the second, \<open>set_value\<close> throws
  \<open>promise_already_satisfied\<close>, the handler's \<open>set_exception\<close> throws it again, and
  that exception leaves \<open>Run\<close>: no \<open>Ok\<close>, and the promise still holds 0, not 1.
\<close>

theorem Run_second_ready_call_throws:
  "fst (case_prod (Run_calls Run 2)
          (SetPromise fresh_store (make_task_named ''poll'' counting) (Some 0)))
     = [Inr Ok, Inl (future_error promise_already_satisfied)] \<and>
   fst (snd (case_prod (Run_calls Run 2)
          (SetPromise fresh_store (make_task_named ''poll'' counting) (Some 0)))) 0
     = has_value 0 \<and>
   fst (invoke (fst counting, Suc 0)) = Inr (Some 1)"
  by (simp add: numeral_2_eq_2 Run_def NamedBasicTask_Run_def Run_catch_def set_value_def
      set_exception_def SetPromise_def make_task_named_def Task_ctor_def NamedBasicTask_ctor_def
      invoke_def counting_def fresh_store_def unique_ptr_reset_def)

text \<open>
  C2, as the code has it. With no promise attached, or with an attached promise that
  holds no result yet, \<open>Run\<close> returns to its caller whatever the callable does. When
  the callable throws, the result is \<open>Ok\<close>; the failure is stored in the attached
  promise as its exception, and with no promise the store is unchanged. An exception
  leaves \<open>Run\<close> exactly when a promise is attached that already holds a result or has
  no shared state, and the callable throws or yields a value. That exception is never
  the failure of the callable: it is \<open>future_error(promise_already_satisfied)\<close>, or
  \<open>future_error(no_state)\<close> for a promise without a shared state, and the store is
  left as it was.
\<close>

theorem Run_returns_unless_promise_unusable:
  "(promise_settable h (m_promise t) \<longrightarrow> (\<exists>r. fst (NamedBasicTask_Run conv h t) = Inr r)) \<and>
   (promise_settable h (m_promise t) \<and> fst (invoke (m_func t)) = Inl e \<longrightarrow>
      fst (NamedBasicTask_Run conv h t) = Inr Ok \<and>
      fst (snd (NamedBasicTask_Run conv h t))
        = (case m_promise t of
             None \<Rightarrow> h
           | Some None \<Rightarrow> h
           | Some (Some a) \<Rightarrow> h(a := has_exception (thrown e)))) \<and>
   (fst (NamedBasicTask_Run conv h t) = Inl x \<longrightarrow>
      \<not> promise_settable h (m_promise t) \<and> fst (invoke (m_func t)) \<noteq> Inr None \<and>
      x = future_error (if m_promise t = Some None then no_state
                        else promise_already_satisfied)) \<and>
   (\<not> promise_settable h (m_promise t) \<and> fst (invoke (m_func t)) \<noteq> Inr None \<longrightarrow>
      NamedBasicTask_Run conv h t
        = (Inl (future_error (if m_promise t = Some None then no_state
                              else promise_already_satisfied)),
           h, t\<lparr>m_func := snd (invoke (m_func t))\<rparr>))"
  by (cases "invoke (m_func t)")
     (auto simp: NamedBasicTask_Run_def Run_catch_def set_value_def set_exception_def
        promise_settable_def
      split: sum.splits option.splits shared_state.splits)

text \<open>
  An instance of C2: a callable that throws \<open>boom\<close>, with a fresh promise
  attached, with none, with a promise that already holds a value, and with a promise
  that has no shared state.
\<close>

theorem Run_returns_unless_promise_unusable_witness:
  "fst (case_prod Run
          (SetPromise fresh_store (make_task_named ''poll'' (always_throws ''boom'')) (Some 0)))
     = Inr Ok \<and>
   fst (snd (case_prod Run
          (SetPromise fresh_store (make_task_named ''poll'' (always_throws ''boom'')) (Some 0))))
     = fresh_store(0 := has_exception (thrown ''boom'')) \<and>
   fst (Run (fresh_store :: (nat, string) store)
          (make_task_named ''poll'' (always_throws ''boom''))) = Inr Ok \<and>
   fst (snd (Run (fresh_store :: (nat, string) store)
          (make_task_named ''poll'' (always_throws ''boom'')))) = fresh_store \<and>
   fst (Run ((fresh_store :: (nat, string) store)(0 := has_value 5))
          ((make_task_named ''poll'' (always_throws ''boom''))\<lparr>m_promise := Some (Some 0)\<rparr>))
     = Inl (future_error promise_already_satisfied) \<and>
   fst (Run (fresh_store :: (nat, string) store)
          ((make_task_named ''poll'' (always_throws ''boom''))\<lparr>m_promise := Some None\<rparr>))
     = Inl (future_error no_state)"
proof -
  let ?t = "make_task_named ''poll'' (always_throws ''boom'')"
  let ?h = "fresh_store :: (nat, string) store"
  have attached: "SetPromise ?h ?t (Some 0) = (?h, ?t\<lparr>m_promise := Some (Some 0)\<rparr>)"
    by (simp add: SetPromise_def make_task_named_def Task_ctor_def NamedBasicTask_ctor_def
        unique_ptr_reset_def)
  have settable: "promise_settable ?h (m_promise (?t\<lparr>m_promise := Some (Some 0)\<rparr>))"
    "promise_settable ?h (m_promise ?t)"
    by (simp_all add: promise_settable_def fresh_store_def make_task_named_def Task_ctor_def
        NamedBasicTask_ctor_def)
  have unusable:
    "\<not> promise_settable (?h(0 := has_value 5)) (m_promise (?t\<lparr>m_promise := Some (Some 0)\<rparr>))"
    "\<not> promise_settable ?h (m_promise (?t\<lparr>m_promise := Some None\<rparr>))"
    by (simp_all add: promise_settable_def)
  have throws: "fst (invoke (m_func (?t\<lparr>m_promise := p\<rparr>))) = Inl ''boom''"
    "fst (invoke (m_func ?t)) = Inl ''boom''" for p
    by (simp_all add: invoke_def always_throws_def make_task_named_def Task_ctor_def
        NamedBasicTask_ctor_def)
  note first = Run_returns_unless_promise_unusable [where h = ?h and t = "?t\<lparr>m_promise := Some (Some 0)\<rparr>"
      and conv = "\<lambda>v. v" and e = "''boom''" and x = "thrown ''boom''"]
  note bare = Run_returns_unless_promise_unusable [where h = ?h and t = ?t and conv = "\<lambda>v. v" and e = "''boom''"
      and x = "thrown ''boom''"]
  note again = Run_returns_unless_promise_unusable [where h = "?h(0 := has_value 5)"
      and t = "?t\<lparr>m_promise := Some (Some 0)\<rparr>"
      and conv = "\<lambda>v. v" and e = "''boom''" and x = "thrown ''boom''"]
  note moved = Run_returns_unless_promise_unusable [where h = ?h and t = "?t\<lparr>m_promise := Some None\<rparr>"
      and conv = "\<lambda>v. v" and e = "''boom''" and x = "thrown ''boom''"]
  have "fst (NamedBasicTask_Run (\<lambda>v. v) ?h (?t\<lparr>m_promise := Some (Some 0)\<rparr>)) = Inr Ok \<and>
      fst (snd (NamedBasicTask_Run (\<lambda>v. v) ?h (?t\<lparr>m_promise := Some (Some 0)\<rparr>)))
        = (case m_promise (?t\<lparr>m_promise := Some (Some 0)\<rparr>) of
             None \<Rightarrow> ?h
           | Some None \<Rightarrow> ?h
           | Some (Some a) \<Rightarrow> ?h(a := has_exception (thrown ''boom'')))"
    using first settable(1) throws(1) by blast
  then have with_promise: "fst (Run ?h (?t\<lparr>m_promise := Some (Some 0)\<rparr>)) = Inr Ok \<and>
      fst (snd (Run ?h (?t\<lparr>m_promise := Some (Some 0)\<rparr>)))
        = ?h(0 := has_exception (thrown ''boom''))"
    by (simp add: Run_def)
  have "fst (NamedBasicTask_Run (\<lambda>v. v) ?h ?t) = Inr Ok \<and>
      fst (snd (NamedBasicTask_Run (\<lambda>v. v) ?h ?t))
        = (case m_promise ?t of
             None \<Rightarrow> ?h
           | Some None \<Rightarrow> ?h
           | Some (Some a) \<Rightarrow> ?h(a := has_exception (thrown ''boom'')))"
    using bare settable(2) throws(2) by blast
  then have without: "fst (Run ?h ?t) = Inr Ok \<and> fst (snd (Run ?h ?t)) = ?h"
    by (simp add: Run_def make_task_named_def Task_ctor_def NamedBasicTask_ctor_def)
  have differs: "fst (invoke (m_func (?t\<lparr>m_promise := p\<rparr>))) \<noteq> Inr None" for p
    using throws(1) [of p] by simp
  have "NamedBasicTask_Run (\<lambda>v. v) (?h(0 := has_value 5)) (?t\<lparr>m_promise := Some (Some 0)\<rparr>)
      = (Inl (future_error (if m_promise (?t\<lparr>m_promise := Some (Some 0)\<rparr>) = Some None
                            then no_state else promise_already_satisfied)),
         ?h(0 := has_value 5),
         ?t\<lparr>m_promise := Some (Some 0)\<rparr>
           \<lparr>m_func := snd (invoke (m_func (?t\<lparr>m_promise := Some (Some 0)\<rparr>)))\<rparr>)"
    using again unusable(1) differs by blast
  then have satisfied: "fst (Run (?h(0 := has_value 5)) (?t\<lparr>m_promise := Some (Some 0)\<rparr>))
      = Inl (future_error promise_already_satisfied)"
    by (simp add: Run_def)
  have "NamedBasicTask_Run (\<lambda>v. v) ?h (?t\<lparr>m_promise := Some None\<rparr>)
      = (Inl (future_error (if m_promise (?t\<lparr>m_promise := Some None\<rparr>) = Some None
                            then no_state else promise_already_satisfied)),
         ?h,
         ?t\<lparr>m_promise := Some None\<rparr>
           \<lparr>m_func := snd (invoke (m_func (?t\<lparr>m_promise := Some None\<rparr>)))\<rparr>)"
    using moved unusable(2) differs by blast
  then have stateless: "fst (Run ?h (?t\<lparr>m_promise := Some None\<rparr>)) = Inl (future_error no_state)"
    by (simp add: Run_def)
  show ?thesis
    unfolding attached using with_promise without satisfied stateless by simp
qed

text \<open>
  C2 as stated, for every callable and call, fails at the second call on a callable
  that throws each time. The first \<open>Run\<close> stores the failure in the promise and
  returns \<open>Ok\<close>. In the second, \<open>set_exception\<close> finds the promise satisfied and
  throws inside the handler: \<open>future_error\<close> reaches the caller of \<open>Run\<close>.
\<close>

theorem Run_second_throwing_call_propagates:
  "fst (case_prod (Run_calls Run 2)
          (SetPromise fresh_store (make_task_named ''poll'' (always_throws ''boom'')) (Some 0)))
     = [Inr Ok, Inl (future_error promise_already_satisfied)]"
  by (simp add: numeral_2_eq_2 Run_def NamedBasicTask_Run_def Run_catch_def set_value_def
      set_exception_def SetPromise_def make_task_named_def Task_ctor_def NamedBasicTask_ctor_def
      invoke_def always_throws_def fresh_store_def unique_ptr_reset_def)

text \<open>
  C7, as the code has it. A task whose attached promise holds no result yet and the
  same task with no promise give the same result of \<open>Run\<close>, and leave the same
  callable behind.
\<close>

theorem Run_result_independent_of_settable_promise:
  "promise_settable h (m_promise t) \<Longrightarrow>
     fst (NamedBasicTask_Run conv h t)
       = fst (NamedBasicTask_Run conv h (t\<lparr>m_promise := None\<rparr>)) \<and>
     m_func (snd (snd (NamedBasicTask_Run conv h t)))
       = m_func (snd (snd (NamedBasicTask_Run conv h (t\<lparr>m_promise := None\<rparr>))))"
  by (cases "invoke (m_func t)")
     (auto simp: NamedBasicTask_Run_def Run_catch_def set_value_def set_exception_def
        promise_settable_def
      split: sum.splits option.splits shared_state.splits)

text \<open>An instance of C7: a ready callable, with a fresh promise and with none.\<close>

theorem Run_result_independent_of_settable_promise_witness:
  "fst (case_prod Run (SetPromise fresh_store (make_task_named ''poll'' (always_ready 7)) (Some 0)))
     = fst (Run (fresh_store :: (nat, string) store) (make_task_named ''poll'' (always_ready 7))) \<and>
   fst (Run (fresh_store :: (nat, string) store) (make_task_named ''poll'' (always_ready 7)))
     = Inr Ok"
proof -
  let ?t = "make_task_named ''poll'' (always_ready 7)"
  let ?h = "fresh_store :: (nat, string) store"
  have attached: "SetPromise ?h ?t (Some 0) = (?h, ?t\<lparr>m_promise := Some (Some 0)\<rparr>)"
    by (simp add: SetPromise_def make_task_named_def Task_ctor_def NamedBasicTask_ctor_def
        unique_ptr_reset_def)
  have settable: "promise_settable ?h (m_promise (?t\<lparr>m_promise := Some (Some 0)\<rparr>))"
    by (simp add: promise_settable_def fresh_store_def)
  have bare: "?t\<lparr>m_promise := Some (Some 0)\<rparr>\<lparr>m_promise := None\<rparr> = ?t"
    by (simp add: make_task_named_def Task_ctor_def NamedBasicTask_ctor_def)
  have ok: "fst (Run ?h ?t) = Inr Ok"
    by (simp add: Run_def NamedBasicTask_Run_def invoke_def always_ready_def make_task_named_def
        Task_ctor_def NamedBasicTask_ctor_def)
  show ?thesis
    using Run_result_independent_of_settable_promise [OF settable, of "\<lambda>v. v"] ok
    by (simp add: attached bare Run_def)
qed

text \<open>
  C7 as stated, for every invocation, fails at the second invocation of a ready
  callable: without a promise both calls return \<open>Ok\<close>; with a promise attached the
  second call does not return, \<open>future_error\<close> leaves it.
\<close>

theorem Run_second_call_differs_with_promise:
  "fst (case_prod (Run_calls Run 2)
          (SetPromise fresh_store (make_task_named ''poll'' (always_ready 7)) (Some 0)))
     = [Inr Ok, Inl (future_error promise_already_satisfied)] \<and>
   fst (Run_calls Run 2 (fresh_store :: (nat, string) store)
          (make_task_named ''poll'' (always_ready 7)))
     = [Inr Ok, Inr Ok]"
  by (simp add: numeral_2_eq_2 Run_def NamedBasicTask_Run_def Run_catch_def set_value_def
      set_exception_def SetPromise_def make_task_named_def Task_ctor_def NamedBasicTask_ctor_def
      invoke_def always_ready_def fresh_store_def unique_ptr_reset_def)

subsection \<open>\<open>SetPromise\<close>\<close>

text \<open>
  C9. Let a task without a promise be given the promise \<open>p1\<close> and then the promise
  \<open>p2\<close>, two promises with shared states of their own that hold no result yet, and
  let its callable be ready with \<open>v\<close>. After each \<open>SetPromise\<close> the task holds the
  promise just given. The second \<open>SetPromise\<close> destroys \<open>p1\<close>, whose future becomes
  ready with \<open>broken_promise\<close>: the task stores neither a value nor a failure in it.
  The following \<open>Run\<close> returns \<open>Ok\<close> and stores \<open>v\<close> in \<open>p2\<close> and nowhere else.
  A call of \<open>Run\<close> changes no shared state but that of the promise attached at that
  call, so a promise attached later is settled only by later calls.
\<close>

theorem SetPromise_replaces_previous_promise:
  "m_promise t = None \<Longrightarrow> a1 \<noteq> a2 \<Longrightarrow> h a1 = not_ready \<Longrightarrow> h a2 = not_ready \<Longrightarrow>
   fst (invoke (m_func t)) = Inr (Some v) \<Longrightarrow>
   SetPromise h t (Some a1) = (h1, t1) \<Longrightarrow> SetPromise h1 t1 (Some a2) = (h2, t2) \<Longrightarrow>
   NamedBasicTask_Run conv h2 t2 = (r, h3, t3) \<Longrightarrow>
     m_promise t1 = Some (Some a1) \<and> m_promise t2 = Some (Some a2) \<and>
     h1 = h \<and> h2 = h(a1 := has_exception (future_error broken_promise)) \<and>
     r = Inr Ok \<and>
     h3 = h(a1 := has_exception (future_error broken_promise), a2 := has_value (conv v)) \<and>
     m_promise t3 = Some (Some a2) \<and>
     (m_promise t' \<noteq> Some (Some a) \<longrightarrow> fst (snd (NamedBasicTask_Run conv h' t')) a = h' a)"
proof -
  assume scene: "m_promise t = None" "a1 \<noteq> a2" "h a1 = not_ready" "h a2 = not_ready"
    "fst (invoke (m_func t)) = Inr (Some v)"
    "SetPromise h t (Some a1) = (h1, t1)" "SetPromise h1 t1 (Some a2) = (h2, t2)"
    "NamedBasicTask_Run conv h2 t2 = (r, h3, t3)"
  have frame: "m_promise t' \<noteq> Some (Some a) \<longrightarrow>
      fst (snd (NamedBasicTask_Run conv h' t')) a = h' a"
    by (cases "invoke (m_func t')")
       (auto simp: NamedBasicTask_Run_def Run_catch_def set_value_def set_exception_def
        split: sum.splits option.splits shared_state.splits)
  have replaced: "m_promise t1 = Some (Some a1) \<and> m_promise t2 = Some (Some a2) \<and>
     h1 = h \<and> h2 = h(a1 := has_exception (future_error broken_promise)) \<and>
     r = Inr Ok \<and>
     h3 = h(a1 := has_exception (future_error broken_promise), a2 := has_value (conv v)) \<and>
     m_promise t3 = Some (Some a2)"
    using scene
    by (cases "invoke (m_func t)")
       (auto simp: NamedBasicTask_Run_def Run_catch_def set_value_def set_exception_def
          SetPromise_def unique_ptr_reset_def promise_destroy_def
        split: sum.splits option.splits shared_state.splits)
  show ?thesis using frame replaced by blast
qed

text \<open>
  An instance of C9: promises at the addresses 0 and 1, a callable ready with 7. A
  \<open>Run\<close> before any promise is attached leaves the shared state at 0 not ready.
\<close>

theorem SetPromise_replaces_previous_promise_witness:
  "fst (case_prod Run
     (case_prod (\<lambda>h t. SetPromise h t (Some 1))
        (SetPromise fresh_store (make_task_named ''poll'' (always_ready 7)) (Some 0))))
     = Inr Ok \<and>
   fst (snd (case_prod Run
     (case_prod (\<lambda>h t. SetPromise h t (Some 1))
        (SetPromise fresh_store (make_task_named ''poll'' (always_ready 7)) (Some 0)))))
     = fresh_store(0 := has_exception (future_error broken_promise), 1 := has_value 7) \<and>
   fst (snd (Run (fresh_store :: (nat, string) store)
          (make_task_named ''poll'' (always_ready 7)))) 0 = not_ready"
proof -
  let ?h = "fresh_store :: (nat, string) store"
  let ?t = "make_task_named ''poll'' (always_ready 7)"
  let ?t1 = "?t\<lparr>m_promise := Some (Some 0)\<rparr>"
  let ?h2 = "?h(0 := has_exception (future_error broken_promise))"
  let ?t2 = "?t\<lparr>m_promise := Some (Some 1)\<rparr>"
  have first: "SetPromise ?h ?t (Some 0) = (?h, ?t1)"
    by (simp add: SetPromise_def make_task_named_def Task_ctor_def NamedBasicTask_ctor_def
        unique_ptr_reset_def)
  have second: "SetPromise ?h ?t1 (Some 1) = (?h2, ?t2)"
    by (simp add: SetPromise_def unique_ptr_reset_def promise_destroy_def fresh_store_def)
  obtain r h3 t3 where run: "NamedBasicTask_Run (\<lambda>v. v) ?h2 ?t2 = (r, h3, t3)"
    by (cases "NamedBasicTask_Run (\<lambda>v. v) ?h2 ?t2") auto
  have scene: "m_promise ?t = None" "(0::nat) \<noteq> 1" "?h 0 = not_ready" "?h 1 = not_ready"
    "fst (invoke (m_func ?t)) = Inr (Some 7)"
    by (simp_all add: make_task_named_def Task_ctor_def NamedBasicTask_ctor_def fresh_store_def
        invoke_def always_ready_def)
  have result: "r = Inr Ok"
    "h3 = ?h(0 := has_exception (future_error broken_promise), 1 := has_value 7)"
    "fst (snd (NamedBasicTask_Run (\<lambda>v. v) ?h ?t)) 0 = ?h 0"
    using SetPromise_replaces_previous_promise
        [OF scene first second run, where t' = "?t" and a = 0 and h' = "?h"] scene(1)
    by simp_all
  show ?thesis
    unfolding first using result run second scene(3) by (simp add: Run_def)
qed

subsection \<open>\<open>Task<void>\<close>\<close>

lemma invoke_void_lambda:
  "invoke (void_lambda f) =
     (case fst (invoke f) of Inl e \<Rightarrow> Inl e | Inr u \<Rightarrow> Inr (Some 0), void_lambda (snd (invoke f)))"
  by (cases "fst f (snd f)") (auto simp: invoke_def void_lambda_def split: sum.splits)

text \<open>
  C10, as the code has it. A task whose callable is the lambda of \<open>Task<void>\<close>
  never returns \<open>Deferred\<close> from \<open>Run\<close>, whether the wrapped callable returns or
  throws. With no promise attached, or with an attached promise that holds no result
  yet, \<open>Run\<close> returns \<open>Ok\<close>. The callable it leaves is again the lambda of
  \<open>Task<void>\<close>, so the same holds at every later call.
\<close>

theorem Task_void_never_Deferred:
  "m_func t = void_lambda f \<Longrightarrow>
     fst (Run_void h t) \<noteq> Inr Deferred \<and>
     (promise_settable h (m_promise t) \<longrightarrow> fst (Run_void h t) = Inr Ok) \<and>
     m_func (snd (snd (Run_void h t))) = void_lambda (snd (invoke f))"
  by (cases "fst (invoke f)")
     (auto simp: Run_void_def NamedBasicTask_Run_def Run_catch_def set_value_def set_exception_def
        promise_settable_def invoke_void_lambda
      split: sum.splits option.splits shared_state.splits)

text \<open>
  An instance of C10: a \<open>void\<close> callable that returns and one that throws, each with
  a fresh promise. The first resolves the promise with the unit value, the second
  rejects it with the failure.
\<close>

theorem Task_void_never_Deferred_witness:
  "case_prod Run_void (SetPromise fresh_store (make_task_void_named ''flush'' void_returns) (Some 0))
     = (Inr Ok, fresh_store(0 := has_value ()),
        \<lparr>m_promise = Some (Some 0), m_func = void_lambda void_returns, m_taskName = ''flush''\<rparr>) \<and>
   case_prod Run_void
     (SetPromise fresh_store (make_task_void_named ''flush'' (void_throws ''boom'')) (Some 0))
     = (Inr Ok, fresh_store(0 := has_exception (thrown ''boom'')),
        \<lparr>m_promise = Some (Some 0), m_func = void_lambda (void_throws ''boom''),
         m_taskName = ''flush''\<rparr>)"
proof -
  let ?h = "fresh_store :: (unit, string) store"
  let ?t = "\<lparr>m_promise = Some (Some 0), m_func = void_lambda void_returns, m_taskName = ''flush''\<rparr>"
  let ?u = "\<lparr>m_promise = Some (Some 0), m_func = void_lambda (void_throws ''boom''),
             m_taskName = ''flush''\<rparr>"
  have settable: "promise_settable ?h (m_promise ?t)" "promise_settable ?h (m_promise ?u)"
    by (simp_all add: promise_settable_def fresh_store_def)
  have "fst (Run_void ?h ?t) = Inr Ok" "fst (Run_void ?h ?u) = Inr Ok"
    using Task_void_never_Deferred [of ?t void_returns ?h]
      Task_void_never_Deferred [of ?u "void_throws ''boom''" ?h] settable
    by simp_all
  then show ?thesis
    by (simp add: Run_void_def NamedBasicTask_Run_def Run_catch_def set_value_def set_exception_def
        SetPromise_def make_task_void_named_def Task_void_ctor_def NamedBasicTask_ctor_def
        invoke_def void_lambda_def void_returns_def void_throws_def fresh_store_def
        unique_ptr_reset_def)
qed

text \<open>
  C10 as stated, for every call, fails at the second call on a \<open>void\<close> task with a
  promise: the first call resolves the promise, the second finds it satisfied and
  \<open>future_error\<close> leaves \<open>Run\<close> instead of \<open>Ok\<close>.
\<close>

theorem Task_void_second_call_throws:
  "fst (case_prod (Run_calls Run_void 2)
          (SetPromise fresh_store (make_task_void_named ''flush'' void_returns) (Some 0)))
     = [Inr Ok, Inl (future_error promise_already_satisfied)]"
  by (simp add: numeral_2_eq_2 Run_void_def NamedBasicTask_Run_def Run_catch_def set_value_def
      set_exception_def SetPromise_def make_task_void_named_def Task_void_ctor_def
      NamedBasicTask_ctor_def invoke_def void_lambda_def void_returns_def fresh_store_def
      unique_ptr_reset_def)

subsection \<open>\<open>GetName\<close>\<close>

lemma hex_digit_printable: "hex_digit d \<noteq> CHR 0x00"
proof -
  have "d mod 16 < length ''0123456789abcdef''" by simp
  then have "''0123456789abcdef'' ! (d mod 16) \<in> set ''0123456789abcdef''"
    by (rule nth_mem)
  then show ?thesis
    unfolding hex_digit_def by auto
qed

lemma hex_digits_printable: "CHR 0x00 \<notin> set (hex_digits n)"
proof (induction n rule: hex_digits.induct)
  case (1 n)
  show ?case
  proof (cases "n < 16")
    case True
    then show ?thesis
      using hex_digit_printable [of n] by (subst hex_digits.simps) auto
  next
    case False
    then show ?thesis
      using 1 hex_digit_printable [of n] by (subst hex_digits.simps) auto
  qed
qed

lemma c_str_no_NUL: "CHR 0x00 \<notin> set s \<Longrightarrow> c_str s = s"
  by (auto simp: c_str_def)

lemma generated_name_no_NUL: "CHR 0x00 \<notin> set (''Unknown at '' @ format_hex n)"
  using hex_digits_printable [of n] by (auto simp: format_hex_def)

lemma GetName_ctor: "GetName (NamedBasicTask_ctor taskName func) = c_str taskName"
  by (simp add: GetName_def NamedBasicTask_ctor_def)

lemma GetName_ctor_unnamed:
  "GetName (NamedBasicTask_ctor_unnamed this func) = ''Unknown at '' @ format_hex (unat this)"
  unfolding NamedBasicTask_ctor_unnamed_def GetName_ctor
  using generated_name_no_NUL by (rule c_str_no_NUL)

lemma GetName_Run: "GetName (snd (snd (NamedBasicTask_Run conv h t))) = GetName t"
  by (cases "invoke (m_func t)")
     (auto simp: GetName_def NamedBasicTask_Run_def Run_catch_def split: sum.splits option.splits)

text \<open>
  C6, as the code has it. The task \<open>make_task\<close> builds from a name reports as
  \<open>GetName\<close> the name up to its first NUL, which is the whole name, verbatim, when
  the name holds no NUL. The task it builds without a name reports
  \<open>Unknown at 0x\<close> followed by the hexadecimal digits of its address, which is not
  empty. Both hold for a callable that returns an optional and for one that returns
  \<open>void\<close>. \<open>GetName\<close> is a total function with no exception, and neither \<open>Run\<close>
  nor \<open>SetPromise\<close> changes what it returns.
\<close>

theorem GetName_of_made_task:
  "GetName (make_task_named taskName f) = c_str taskName \<and>
   GetName (make_task_void_named taskName g) = c_str taskName \<and>
   (CHR 0x00 \<notin> set taskName \<longrightarrow>
      GetName (make_task_named taskName f) = taskName \<and>
      GetName (make_task_void_named taskName g) = taskName) \<and>
   GetName (make_task this f) = ''Unknown at '' @ format_hex (unat this) \<and>
   GetName (make_task_void this g) = ''Unknown at '' @ format_hex (unat this) \<and>
   GetName (make_task this f) \<noteq> [] \<and>
   GetName (make_task_void this g) \<noteq> [] \<and>
   GetName (snd (snd (NamedBasicTask_Run conv h t))) = GetName t \<and>
   GetName (snd (SetPromise h t p)) = GetName t"
proof -
  have named: "GetName (make_task_named taskName f) = c_str taskName"
    "GetName (make_task_void_named taskName g) = c_str taskName"
    by (simp_all add: make_task_named_def make_task_void_named_def Task_ctor_def
        Task_void_ctor_def GetName_ctor)
  have unnamed: "GetName (make_task this f) = ''Unknown at '' @ format_hex (unat this)"
    "GetName (make_task_void this g) = ''Unknown at '' @ format_hex (unat this)"
    unfolding make_task_def make_task_void_def Task_ctor_unnamed_def Task_void_ctor_unnamed_def
    by (rule GetName_ctor_unnamed)+
  have nonempty: "GetName (make_task this f) \<noteq> []" "GetName (make_task_void this g) \<noteq> []"
    unfolding unnamed by simp_all
  have attach: "GetName (snd (SetPromise h t p)) = GetName t"
    by (simp add: GetName_def SetPromise_def)
  show ?thesis
    using named unnamed nonempty attach GetName_Run [of conv h t] c_str_no_NUL [of taskName]
    by simp
qed

lemma format_hex_4096: "format_hex 4096 = ''0x1000''"
  by (simp add: format_hex_def hex_digit_def)

text \<open>
  An instance of C6: the names \<open>poll\<close> and \<open>flush\<close>, a task allocated at the
  address 4096, and the name after a call of \<open>Run\<close>.
\<close>

theorem GetName_of_made_task_witness:
  "GetName (make_task_named ''poll'' never_ready) = ''poll'' \<and>
   GetName (make_task_void_named ''flush'' void_returns) = ''flush'' \<and>
   GetName (make_task 4096 never_ready) = ''Unknown at 0x1000'' \<and>
   GetName (make_task_void 4096 void_returns) = ''Unknown at 0x1000'' \<and>
   GetName (snd (snd (Run (fresh_store :: (nat, string) store)
                         (make_task_named ''poll'' never_ready)))) = ''poll''"
proof -
  have plain: "CHR 0x00 \<notin> set ''poll''" "CHR 0x00 \<notin> set ''flush''"
    by simp_all
  have "GetName (make_task_named ''poll'' never_ready) = ''poll''"
    using GetName_of_made_task [of "''poll''" never_ready void_returns] plain(1) by blast
  moreover have "GetName (make_task_void_named ''flush'' void_returns) = ''flush''"
    using GetName_of_made_task [of "''flush''" never_ready void_returns] plain(2) by blast
  moreover have "GetName (make_task 4096 never_ready) = ''Unknown at '' @ format_hex (unat (4096 :: 64 word))"
    "GetName (make_task_void 4096 void_returns) = ''Unknown at '' @ format_hex (unat (4096 :: 64 word))"
    using GetName_of_made_task [of "''poll''" never_ready void_returns 4096] by blast+
  moreover have "GetName (snd (snd (Run (fresh_store :: (nat, string) store)
                         (make_task_named ''poll'' never_ready))))
      = GetName (make_task_named ''poll'' never_ready)"
    using GetName_of_made_task [of "''poll''" never_ready void_returns 4096 "\<lambda>v. v" fresh_store
        "make_task_named ''poll'' never_ready"]
    unfolding Run_def by blast
  ultimately show ?thesis
    by (simp add: format_hex_4096)
qed

text \<open>
  C6 as stated, for every name string, fails at a name with an embedded NUL: the
  \<open>char const *\<close> that \<open>GetName\<close> returns ends there. The name is the three
  characters \<open>a\<close>, NUL, \<open>b\<close>; \<open>GetName\<close> gives \<open>a\<close>.
\<close>

theorem GetName_ends_at_embedded_NUL:
  "GetName (make_task_named [CHR ''a'', CHR 0x00, CHR ''b''] never_ready) = ''a'' \<and>
   GetName (make_task_named [CHR ''a'', CHR 0x00, CHR ''b''] never_ready)
     \<noteq> [CHR ''a'', CHR 0x00, CHR ''b'']"
  by (simp add: GetName_def make_task_named_def Task_ctor_def NamedBasicTask_ctor_def c_str_def)

subsection \<open>\<open>TaskWithAttempts::Run\<close>\<close>

lemma sint_INT_MIN: "sint INT_MIN = - 2147483648"
  by (simp add: INT_MIN_def)

lemma unat_INT_MIN: "unat INT_MIN = 2147483648"
  by (simp add: INT_MIN_def)

lemma sint_pre_decrement:
  assumes "(n :: cpp_int) \<noteq> INT_MIN"
  shows "sint (n - 1) = sint n - 1"
proof -
  have "sint n \<noteq> sint INT_MIN"
    using assms by (simp add: word_eq_iff_signed [symmetric])
  then have above: "sint n \<noteq> - 2147483648"
    by (simp add: sint_INT_MIN)
  have lower: "- 2147483648 \<le> sint n"
    using sint_ge [of n] by simp
  have upper: "sint n < 2147483648"
    using sint_lt [of n] by simp
  have "sint (n - 1) = signed_take_bit 31 (sint n - 1)"
    by (simp add: sint_word_diff)
  also have "\<dots> = sint n - 1"
    using above lower upper by (intro signed_take_bit_int_eq_self) simp_all
  finally show ?thesis .
qed

lemma unat_of_nat_int: "k < 2147483648 \<Longrightarrow> unat (of_nat k :: cpp_int) = k"
  by (simp add: unat_of_nat)

lemma of_nat_int_eq_0:
  assumes "k < 2147483648"
  shows "(of_nat k :: cpp_int) = 0 \<longleftrightarrow> k = 0"
proof
  assume "(of_nat k :: cpp_int) = 0"
  then have "unat (of_nat k :: cpp_int) = 0" by simp
  then show "k = 0" using assms by (simp add: unat_of_nat_int)
qed simp

lemma of_nat_int_not_INT_MIN:
  assumes "k < 2147483648"
  shows "(of_nat k :: cpp_int) \<noteq> INT_MIN"
proof
  assume "(of_nat k :: cpp_int) = INT_MIN"
  then have "unat (of_nat k :: cpp_int) = unat INT_MIN" by simp
  then show False using assms by (simp add: unat_of_nat_int unat_INT_MIN)
qed

lemma never_yields_invoke:
  "never_yields f \<Longrightarrow> fst (invoke f) = Inr None \<and> never_yields (snd (invoke f))"
  by (cases "fst f (snd f)") (auto simp: never_yields_def invoke_def dest: spec [of _ "snd f"])

lemma Run_never_yields:
  "never_yields (m_func t) \<Longrightarrow> Run h t = (Inr Deferred, h, t\<lparr>m_func := snd (invoke (m_func t))\<rparr>)"
  using never_yields_invoke [of "m_func t"]
  by (cases "invoke (m_func t)") (auto simp: Run_def NamedBasicTask_Run_def)

lemma TaskWithAttempts_Run_never_yields:
  assumes "never_yields (m_func t)" and "m_attempts t = of_nat (Suc k)" and "Suc k < 2147483648"
  shows "TaskWithAttempts_Run h t =
     (if k = 0
      then Defined (Inr Ok, unique_ptr_reset h (m_promise t),
             t\<lparr>m_func := snd (invoke (m_func t)), m_promise := None, m_attempts := 0\<rparr>)
      else Defined (Inr Deferred, h,
             t\<lparr>m_func := snd (invoke (m_func t)), m_attempts := of_nat k\<rparr>))"
proof -
  have "m_attempts t \<noteq> INT_MIN"
    using assms(2,3) of_nat_int_not_INT_MIN [of "Suc k"] by simp
  moreover have "m_attempts t - 1 = of_nat k"
    using assms(2) by simp
  moreover have "(of_nat k :: cpp_int) = 0 \<longleftrightarrow> k = 0"
    using assms(3) by (intro of_nat_int_eq_0) simp
  ultimately show ?thesis
    using assms(1) by (simp add: TaskWithAttempts_Run_def Run_never_yields pre_decrement_def)
qed

lemma TaskWithAttempts_calls_exhaust:
  "never_yields (m_func t) \<Longrightarrow> m_attempts t = of_nat (Suc k) \<Longrightarrow> Suc k < 2147483648 \<Longrightarrow>
     \<exists>t'. TaskWithAttempts_calls (Suc k) h t
            = Defined (replicate k (Inr Deferred) @ [Inr Ok], unique_ptr_reset h (m_promise t), t')
          \<and> m_promise t' = None \<and> m_attempts t' = 0 \<and> m_taskName t' = m_taskName t"
proof (induction k arbitrary: t)
  case 0
  then show ?case
    using TaskWithAttempts_Run_never_yields [of t 0 h] by simp
next
  case (Suc k)
  let ?t1 = "t\<lparr>m_func := snd (invoke (m_func t)), m_attempts := of_nat (Suc k)\<rparr>"
  have step: "TaskWithAttempts_Run h t = Defined (Inr Deferred, h, ?t1)"
    using Suc.prems TaskWithAttempts_Run_never_yields [of t "Suc k" h] by simp
  have "never_yields (m_func ?t1)"
    using Suc.prems(1) never_yields_invoke [of "m_func t"] by simp
  moreover have "m_attempts ?t1 = of_nat (Suc k)" by simp
  moreover have "Suc k < 2147483648" using Suc.prems(3) by simp
  ultimately obtain t' where
    rest: "TaskWithAttempts_calls (Suc k) h ?t1
            = Defined (replicate k (Inr Deferred) @ [Inr Ok], unique_ptr_reset h (m_promise ?t1), t')"
    and final: "m_promise t' = None" "m_attempts t' = 0" "m_taskName t' = m_taskName ?t1"
    using Suc.IH [of ?t1] by blast
  have "TaskWithAttempts_calls (Suc (Suc k)) h t
          = Defined (replicate (Suc k) (Inr Deferred) @ [Inr Ok], unique_ptr_reset h (m_promise t), t')"
    using step rest by simp
  then show ?case using final by simp
qed

lemma TaskWithAttempts_calls_deferred:
  "never_yields (m_func t) \<Longrightarrow> m_attempts t = of_nat n \<Longrightarrow> n < 2147483648 \<Longrightarrow> k < n \<Longrightarrow>
     \<exists>t'. TaskWithAttempts_calls k h t = Defined (replicate k (Inr Deferred), h, t')
          \<and> m_promise t' = m_promise t"
proof (induction k arbitrary: t n)
  case 0
  then show ?case by simp
next
  case (Suc k)
  obtain j where n: "n = Suc j" using Suc.prems(4) by (cases n) simp_all
  let ?t1 = "t\<lparr>m_func := snd (invoke (m_func t)), m_attempts := of_nat j\<rparr>"
  have "j \<noteq> 0" using Suc.prems(4) n by simp
  then have step: "TaskWithAttempts_Run h t = Defined (Inr Deferred, h, ?t1)"
    using Suc.prems n TaskWithAttempts_Run_never_yields [of t j h] by simp
  have "never_yields (m_func ?t1)"
    using Suc.prems(1) never_yields_invoke [of "m_func t"] by simp
  moreover have "m_attempts ?t1 = of_nat j" by simp
  moreover have "j < 2147483648" "k < j" using Suc.prems(3,4) n by simp_all
  ultimately obtain t' where
    rest: "TaskWithAttempts_calls k h ?t1 = Defined (replicate k (Inr Deferred), h, t')"
    and kept: "m_promise t' = m_promise ?t1"
    using Suc.IH [of ?t1 j] by blast
  have "TaskWithAttempts_calls (Suc k) h t = Defined (replicate (Suc k) (Inr Deferred), h, t')"
    using step rest by simp
  then show ?case using kept by simp
qed

lemma Run_keeps_fields:
  "m_attempts (snd (snd (Run h t))) = m_attempts t \<and>
   m_promise (snd (snd (Run h t))) = m_promise t \<and>
   m_taskName (snd (snd (Run h t))) = m_taskName t"
  by (cases "invoke (m_func t)")
     (auto simp: Run_def NamedBasicTask_Run_def Run_catch_def
      split: sum.splits option.splits)

lemma Run_Deferred_store:
  "fst (Run h t) = Inr Deferred \<Longrightarrow> fst (snd (Run h t)) = h"
  by (cases "invoke (m_func t)")
     (auto simp: Run_def NamedBasicTask_Run_def Run_catch_def
      split: sum.splits option.splits)

lemma sint_le_0_pre_decrement:
  assumes "sint (n :: cpp_int) \<le> 0"
  shows "n - 1 \<noteq> 0"
proof
  assume "n - 1 = 0"
  then have "n = 1" by simp
  then show False using assms by simp
qed

text \<open>
  C3. Let \<open>N\<close> be at least 1 and an \<open>int\<close>, the counter of the task be \<open>N\<close>, and the
  callable never yield a value. Then each of the first \<open>N - 1\<close> calls of \<open>Run\<close>
  returns \<open>Deferred\<close> and leaves the store and the attached promise as they were.
  The \<open>N\<close>-th call returns \<open>Ok\<close> and leaves the task without a promise: the
  promise it held has been destroyed, and if its shared state held no result, the
  waiting future now finds \<open>future_error(broken_promise)\<close> there.
\<close>

theorem TaskWithAttempts_exhausts_after_N_calls:
  "1 \<le> N \<Longrightarrow> N < 2147483648 \<Longrightarrow> m_attempts t = of_nat N \<Longrightarrow> never_yields (m_func t) \<Longrightarrow>
     (\<forall>k<N. \<exists>t'. TaskWithAttempts_calls k h t = Defined (replicate k (Inr Deferred), h, t')
               \<and> m_promise t' = m_promise t) \<and>
     (\<exists>t'. TaskWithAttempts_calls N h t
             = Defined (replicate (N - 1) (Inr Deferred) @ [Inr Ok],
                        unique_ptr_reset h (m_promise t), t')
          \<and> m_promise t' = None) \<and>
     (m_promise t = Some (Some a) \<and> h a = not_ready \<longrightarrow>
        unique_ptr_reset h (m_promise t) a = has_exception (future_error broken_promise))"
proof -
  assume N: "1 \<le> N" "N < 2147483648" and t: "m_attempts t = of_nat N" "never_yields (m_func t)"
  obtain k where k: "N = Suc k" using N(1) by (cases N) simp_all
  have before: "\<forall>j<N. \<exists>t'. TaskWithAttempts_calls j h t = Defined (replicate j (Inr Deferred), h, t')
               \<and> m_promise t' = m_promise t"
    using TaskWithAttempts_calls_deferred [OF t(2) t(1) N(2)] by blast
  have last: "\<exists>t'. TaskWithAttempts_calls N h t
             = Defined (replicate (N - 1) (Inr Deferred) @ [Inr Ok],
                        unique_ptr_reset h (m_promise t), t')
          \<and> m_promise t' = None"
    using TaskWithAttempts_calls_exhaust [of t k h] t N(2) k by auto
  have broken: "m_promise t = Some (Some a) \<and> h a = not_ready \<longrightarrow>
        unique_ptr_reset h (m_promise t) a = has_exception (future_error broken_promise)"
    by (simp add: unique_ptr_reset_def promise_destroy_def)
  show ?thesis using before last broken by blast
qed

text \<open>
  An instance of C3: three attempts and a fresh promise at the address 0. After
  two calls the promise is still attached and not ready; the third call breaks it.
\<close>

theorem TaskWithAttempts_exhausts_after_N_calls_witness:
  "(\<exists>t'. case_prod (TaskWithAttempts_calls 3)
            (SetPromise fresh_store (make_task_with_attempts_named ''poll'' 3 never_ready) (Some 0))
          = Defined ([Inr Deferred, Inr Deferred, Inr Ok],
                     fresh_store(0 := has_exception (future_error broken_promise)), t')
        \<and> m_promise t' = None) \<and>
   (\<exists>t'. case_prod (TaskWithAttempts_calls 2)
            (SetPromise fresh_store (make_task_with_attempts_named ''poll'' 3 never_ready) (Some 0))
          = Defined ([Inr Deferred, Inr Deferred], fresh_store, t')
        \<and> m_promise t' = Some (Some 0))"
proof -
  let ?h = "fresh_store :: (nat, string) store"
  let ?t = "make_task_with_attempts_named ''poll'' 3 never_ready"
  let ?t1 = "?t\<lparr>m_promise := Some (Some 0)\<rparr>"
  have attached: "SetPromise ?h ?t (Some 0) = (?h, ?t1)"
    by (simp add: SetPromise_def make_task_with_attempts_named_def TaskWithAttempts_ctor_def
        NamedBasicTask_ctor_def unique_ptr_reset_def NamedBasicTask.defs)
  have pre: "1 \<le> (3::nat)" "(3::nat) < 2147483648" "m_attempts ?t1 = of_nat 3"
    "never_yields (m_func ?t1)"
    by (simp_all add: make_task_with_attempts_named_def TaskWithAttempts_ctor_def
        NamedBasicTask_ctor_def NamedBasicTask.defs TaskWithAttempts.defs never_yields_def
        never_ready_def)
  have promise: "m_promise ?t1 = Some (Some 0)" "?h 0 = not_ready"
    by (simp_all add: fresh_store_def)
  have reset: "unique_ptr_reset ?h (Some (Some 0)) = ?h(0 := has_exception (future_error broken_promise))"
    by (simp add: unique_ptr_reset_def promise_destroy_def fresh_store_def)
  note all = TaskWithAttempts_exhausts_after_N_calls [OF pre, of ?h 0]
  have last: "\<exists>t'. TaskWithAttempts_calls 3 ?h ?t1
             = Defined (replicate (3 - 1) (Inr Deferred) @ [Inr Ok],
                        unique_ptr_reset ?h (m_promise ?t1), t')
          \<and> m_promise t' = None"
    using all by blast
  have "\<forall>k<3. \<exists>t'. TaskWithAttempts_calls k ?h ?t1 = Defined (replicate k (Inr Deferred), ?h, t')
               \<and> m_promise t' = m_promise ?t1"
    using all by blast
  then have before: "\<exists>t'. TaskWithAttempts_calls 2 ?h ?t1
        = Defined (replicate 2 (Inr Deferred), ?h, t') \<and> m_promise t' = m_promise ?t1"
    by (elim allE [where x = 2]) simp
  have lists: "replicate (3 - 1) x @ [y] = [x, x, y]" "replicate 2 x = [x, x]"
    for x y :: "string exception + RunResult"
    by (simp_all add: numeral_2_eq_2 numeral_3_eq_3)
  show ?thesis
    unfolding attached using last before promise reset by (simp add: lists)
qed


text \<open>
  C4 is what the code does not do. With a counter that is zero or negative (and
  above \<open>INT_MIN\<close>) and a base result \<open>Deferred\<close>, the decrement gives a negative
  number, the comparison with zero fails, and \<open>Run\<close> returns \<open>Deferred\<close> with the
  store unchanged and the promise still attached: the task is not exhausted.
\<close>

theorem TaskWithAttempts_nonpositive_attempts_Deferred:
  "sint (m_attempts t) \<le> 0 \<Longrightarrow> m_attempts t \<noteq> INT_MIN \<Longrightarrow> fst (Run h t) = Inr Deferred \<Longrightarrow>
     TaskWithAttempts_Run h t
       = Defined (Inr Deferred, h, (snd (snd (Run h t)))\<lparr>m_attempts := m_attempts t - 1\<rparr>) \<and>
     m_promise (snd (snd (Run h t))) = m_promise t"
proof -
  assume low: "sint (m_attempts t) \<le> 0" and defined: "m_attempts t \<noteq> INT_MIN"
    and base: "fst (Run h t) = Inr Deferred"
  obtain t1 where run: "Run h t = (Inr Deferred, h, t1)"
    using base Run_Deferred_store [OF base] by (cases "Run h t") auto
  have fields: "m_attempts t1 = m_attempts t" "m_promise t1 = m_promise t"
    using Run_keeps_fields [of h t] run by simp_all
  have "m_attempts t - 1 \<noteq> 0"
    using low by (rule sint_le_0_pre_decrement)
  then show ?thesis
    using run fields defined by (simp add: TaskWithAttempts_Run_def pre_decrement_def)
qed

text \<open>
  C4 at \<open>attempts = 0\<close>, a callable that is never ready and a fresh promise: the
  first \<open>Run\<close> returns \<open>Deferred\<close>, the counter is \<open>-1\<close>, and the promise is still
  attached and not ready.
\<close>

theorem TaskWithAttempts_nonpositive_attempts_Deferred_witness:
  "case_prod TaskWithAttempts_Run
     (SetPromise fresh_store (make_task_with_attempts_named ''poll'' 0 never_ready) (Some 0))
   = Defined (Inr Deferred, fresh_store,
       \<lparr>m_promise = Some (Some 0), m_func = never_ready, m_taskName = ''poll'',
        m_attempts = - 1\<rparr>)"
proof -
  let ?h = "fresh_store :: (nat, string) store"
  let ?t = "\<lparr>m_promise = Some (Some 0), m_func = never_ready, m_taskName = ''poll'',
             m_attempts = 0\<rparr>"
  have attached:
    "SetPromise ?h (make_task_with_attempts_named ''poll'' 0 never_ready) (Some 0) = (?h, ?t)"
    by (simp add: SetPromise_def make_task_with_attempts_named_def TaskWithAttempts_ctor_def
        NamedBasicTask_ctor_def unique_ptr_reset_def NamedBasicTask.defs TaskWithAttempts.defs)
  have base: "Run ?h ?t = (Inr Deferred, ?h, ?t)"
    by (simp add: Run_def NamedBasicTask_Run_def invoke_def never_ready_def)
  have pre: "sint (m_attempts ?t) \<le> 0" "m_attempts ?t \<noteq> INT_MIN" "fst (Run ?h ?t) = Inr Deferred"
    by (simp_all add: base INT_MIN_def)
  show ?thesis
    unfolding attached using TaskWithAttempts_nonpositive_attempts_Deferred [OF pre] by (simp add: base)
qed

text \<open>
  Nor does a later call exhaust such a task. With a callable that never yields, every
  call returns \<open>Deferred\<close> and takes the counter one further below zero, for as
  many calls as the counter has room above \<open>INT_MIN\<close>.
\<close>

lemma TaskWithAttempts_nonpositive_attempts_never_exhaust:
  "sint (m_attempts t) \<le> 0 \<Longrightarrow> never_yields (m_func t) \<Longrightarrow>
   int k \<le> sint (m_attempts t) + 2147483648 \<Longrightarrow>
     \<exists>t'. TaskWithAttempts_calls k h t = Defined (replicate k (Inr Deferred), h, t')
          \<and> m_promise t' = m_promise t
          \<and> sint (m_attempts t') = sint (m_attempts t) - int k"
proof (induction k arbitrary: t)
  case 0
  then show ?case by simp
next
  case (Suc k)
  let ?t1 = "t\<lparr>m_func := snd (invoke (m_func t)), m_attempts := m_attempts t - 1\<rparr>"
  have "sint (m_attempts t) \<noteq> sint INT_MIN"
    using Suc.prems(3) by (simp add: sint_INT_MIN)
  then have defined: "m_attempts t \<noteq> INT_MIN"
    by auto
  have less: "sint (m_attempts t - 1) = sint (m_attempts t) - 1"
    using defined by (rule sint_pre_decrement)
  have nonzero: "m_attempts t - 1 \<noteq> 0"
    using Suc.prems(1) by (rule sint_le_0_pre_decrement)
  have step: "TaskWithAttempts_Run h t = Defined (Inr Deferred, h, ?t1)"
    using Suc.prems(2) defined nonzero
    by (simp add: TaskWithAttempts_Run_def Run_never_yields pre_decrement_def)
  have "sint (m_attempts ?t1) \<le> 0" "never_yields (m_func ?t1)"
    "int k \<le> sint (m_attempts ?t1) + 2147483648"
    using Suc.prems less never_yields_invoke [of "m_func t"] by simp_all
  then obtain t' where
    rest: "TaskWithAttempts_calls k h ?t1 = Defined (replicate k (Inr Deferred), h, t')"
    and kept: "m_promise t' = m_promise ?t1" "sint (m_attempts t') = sint (m_attempts ?t1) - int k"
    using Suc.IH [of ?t1] by blast
  have "TaskWithAttempts_calls (Suc k) h t = Defined (replicate (Suc k) (Inr Deferred), h, t')"
    using step rest by simp
  then show ?case using kept less by simp
qed

text \<open>
  C5, as the code has it. At every call of \<open>Run\<close> on a \<open>TaskWithAttempts\<close> whose
  counter is above \<open>INT_MIN\<close>, or whose base class's \<open>Run\<close> does not return
  \<open>Deferred\<close>, the call has defined behaviour and the counter afterwards is not
  greater than before: it is one less when the base class's \<open>Run\<close> returned
  \<open>Deferred\<close>, and unchanged when it returned \<open>Ok\<close> or threw. The behaviour is
  undefined in exactly the remaining case, a \<open>Deferred\<close> base result at the counter
  \<open>INT_MIN\<close>, where the decrement overflows.
\<close>

theorem TaskWithAttempts_counter_never_increases:
  "(m_attempts t \<noteq> INT_MIN \<or> fst (Run h t) \<noteq> Inr Deferred \<longrightarrow>
      (\<exists>r h' t'. TaskWithAttempts_Run h t = Defined (r, h', t') \<and>
         sint (m_attempts t') \<le> sint (m_attempts t) \<and>
         (fst (Run h t) = Inr Deferred \<longrightarrow> sint (m_attempts t') = sint (m_attempts t) - 1) \<and>
         (fst (Run h t) \<noteq> Inr Deferred \<longrightarrow> m_attempts t' = m_attempts t))) \<and>
   (TaskWithAttempts_Run h t = Undefined \<longleftrightarrow>
      fst (Run h t) = Inr Deferred \<and> m_attempts t = INT_MIN)"
proof -
  obtain b h1 t1 where run: "Run h t = (b, h1, t1)"
    by (cases "Run h t") auto
  have kept: "m_attempts t1 = m_attempts t"
    using Run_keeps_fields [of h t] run by simp
  show ?thesis
  proof (cases b)
    case (Inl x)
    then show ?thesis
      using run kept by (auto simp: TaskWithAttempts_Run_def)
  next
    case (Inr res)
    show ?thesis
    proof (cases res)
      case Ok
      then show ?thesis
        using run kept Inr by (auto simp: TaskWithAttempts_Run_def)
    next
      case Deferred
      show ?thesis
      proof (cases "m_attempts t = INT_MIN")
        case True
        then show ?thesis
          using run kept Inr Deferred by (simp add: TaskWithAttempts_Run_def pre_decrement_def)
      next
        case False
        then have "sint (m_attempts t - 1) = sint (m_attempts t) - 1"
          by (rule sint_pre_decrement)
        then show ?thesis
          using run kept Inr Deferred False
          by (auto simp: TaskWithAttempts_Run_def pre_decrement_def)
      qed
    qed
  qed
qed

text \<open>
  An instance of C5: from 2 to 1 on \<open>Deferred\<close>, and 2 kept on \<open>Ok\<close>.
\<close>

theorem TaskWithAttempts_counter_never_increases_witness:
  "TaskWithAttempts_Run (fresh_store :: (nat, string) store)
     (make_task_with_attempts_named ''poll'' 2 never_ready)
   = Defined (Inr Deferred, fresh_store,
       \<lparr>m_promise = None, m_func = never_ready, m_taskName = ''poll'', m_attempts = 1\<rparr>) \<and>
   (\<exists>r h' t'. TaskWithAttempts_Run (fresh_store :: (nat, string) store)
        (make_task_with_attempts_named ''poll'' 2 never_ready) = Defined (r, h', t') \<and>
      sint (m_attempts t')
        = sint (m_attempts (make_task_with_attempts_named ''poll'' 2 never_ready)) - 1) \<and>
   TaskWithAttempts_Run (fresh_store :: (nat, string) store)
     (make_task_with_attempts_named ''poll'' 2 (always_ready 7))
   = Defined (Inr Ok, fresh_store, make_task_with_attempts_named ''poll'' 2 (always_ready 7))"
proof -
  let ?h = "fresh_store :: (nat, string) store"
  let ?t = "make_task_with_attempts_named ''poll'' 2 never_ready"
  let ?t' = "\<lparr>m_promise = None, m_func = never_ready, m_taskName = ''poll'', m_attempts = 1\<rparr>"
  let ?u = "make_task_with_attempts_named ''poll'' 2 (always_ready 7)"
  have ctor: "make_task_with_attempts_named n k f
      = \<lparr>m_promise = None, m_func = f, m_taskName = n, m_attempts = k\<rparr>"
    for n k and f :: "(unit, nat option, string) callable"
    by (simp add: make_task_with_attempts_named_def TaskWithAttempts_ctor_def
        NamedBasicTask_ctor_def NamedBasicTask.defs TaskWithAttempts.defs)
  have base: "fst (Run ?h ?t) = Inr Deferred"
    by (simp add: ctor Run_def NamedBasicTask_Run_def invoke_def never_ready_def)
  have above: "m_attempts ?t \<noteq> INT_MIN"
    by (simp add: ctor INT_MIN_def)
  have deferred: "TaskWithAttempts_Run ?h ?t = Defined (Inr Deferred, ?h, ?t')"
    by (simp add: ctor TaskWithAttempts_Run_def Run_def NamedBasicTask_Run_def invoke_def
        never_ready_def pre_decrement_def INT_MIN_def)
  have ready: "TaskWithAttempts_Run ?h ?u = Defined (Inr Ok, ?h, ?u)"
    by (simp add: ctor TaskWithAttempts_Run_def Run_def NamedBasicTask_Run_def invoke_def
        always_ready_def)
  have "\<exists>r h' t'. TaskWithAttempts_Run ?h ?t = Defined (r, h', t') \<and>
      sint (m_attempts t') = sint (m_attempts ?t) - 1"
    using TaskWithAttempts_counter_never_increases [of ?t ?h] above base by blast
  then show ?thesis
    using deferred ready by simp
qed

text \<open>
  C5 as stated, for every task and call, fails for a task constructed with
  \<open>attempts = INT_MIN\<close> and a callable that is not ready. The base class's \<open>Run\<close>
  returns \<open>Deferred\<close> and \<open>--m_attempts\<close> overflows: C++ defines no result, and
  the two's-complement decrement gives \<open>INT_MAX\<close>, which is greater than the counter
  was, not one less.
\<close>

theorem TaskWithAttempts_decrement_overflows_at_INT_MIN:
  "fst (Run (fresh_store :: (nat, string) store)
          (make_task_with_attempts_named ''poll'' INT_MIN never_ready)) = Inr Deferred \<and>
   TaskWithAttempts_Run (fresh_store :: (nat, string) store)
     (make_task_with_attempts_named ''poll'' INT_MIN never_ready) = Undefined \<and>
   sint INT_MIN = - 2147483648 \<and>
   sint (INT_MIN - 1) = 2147483647"
proof -
  let ?h = "fresh_store :: (nat, string) store"
  let ?w = "make_task_with_attempts_named ''poll'' INT_MIN never_ready"
  have ctor: "?w = \<lparr>m_promise = None, m_func = never_ready, m_taskName = ''poll'',
                     m_attempts = INT_MIN\<rparr>"
    by (simp add: make_task_with_attempts_named_def TaskWithAttempts_ctor_def
        NamedBasicTask_ctor_def NamedBasicTask.defs TaskWithAttempts.defs)
  have base: "Run ?h ?w = (Inr Deferred, ?h, ?w)"
    unfolding ctor by (simp add: Run_def NamedBasicTask_Run_def invoke_def never_ready_def)
  have undefined: "TaskWithAttempts_Run ?h ?w = Undefined"
    unfolding TaskWithAttempts_Run_def base by (simp add: ctor pre_decrement_def)
  have wrap: "sint (INT_MIN - 1) = 2147483647"
    by (simp add: INT_MIN_def)
  show ?thesis
    using base undefined wrap sint_INT_MIN by simp
qed


end
